theory Spec2Isabelle
  imports Main "HOL-Library.Word"
begin

section \<open>The LAME audio encoder add-on (src/src/EncoderLame.cpp)\<close>

text \<open>
  A shallow embedding of class \<open>CEncoderLame\<close>: its constructor and the methods
  \<open>Start\<close>, \<open>Encode\<close>, \<open>Finish\<close> and \<open>ToUtf16\<close>. The LAME library, the host's
  settings, \<open>calloc\<close>/\<open>free\<close> and \<open>iconv\<close> are not part of the repository; they are
  parameters of the model (the records \<open>lame_api\<close> and \<open>host\<close>). \<open>size_t\<close> is
  modelled by \<open>nat\<close>: the arithmetic of the file on it is \<open>bytes_left / 4\<close>,
  \<open>min\<close>, \<open>frames * 4 \<le> bytes_left\<close>, the subtraction of that product and
  \<open>(l + 1) * 4 + 4\<close> on a string length, none of which wraps for a buffer that fits
  the address space. C's \<open>int\<close> is modelled by \<open>int\<close>; where the file computes on
  it (the bit rate) or converts it to \<open>size_t\<close> (the length of a write), the 32 and
  64 bits are written out.
\<close>

subsection \<open>Data\<close>

type_synonym uint8_t = "8 word"
type_synonym uint16_t = "16 word"

text \<open>\<open>sizeof(m_buffer)\<close>.\<close>

definition sizeof_m_buffer :: nat where
  "sizeof_m_buffer = 65536"

text \<open>
  The array \<open>uint8_t m_buffer[65536]\<close>: its bytes, always \<open>sizeof(m_buffer)\<close> of
  them. \<open>fill out buf\<close> is the array after the bytes \<open>out\<close> are stored from its
  start on; it is for the instances of the library below, whose functions get the
  size of the array and store no more.
\<close>

typedef m_buffer_t = "{bs :: uint8_t list. length bs = sizeof_m_buffer}"
  by (rule exI [of _ "replicate sizeof_m_buffer 0"]) simp

definition bytes_of :: "m_buffer_t \<Rightarrow> uint8_t list" where
  "bytes_of buf = Rep_m_buffer_t buf"

definition zero_buffer :: m_buffer_t where
  "zero_buffer = Abs_m_buffer_t (replicate sizeof_m_buffer 0)"

definition fill :: "uint8_t list \<Rightarrow> m_buffer_t \<Rightarrow> m_buffer_t" where
  "fill out buf =
     Abs_m_buffer_t (take sizeof_m_buffer (out @ drop (length out) (bytes_of buf)))"

text \<open>
  The output sink of the base class \<open>CInstanceAudioEncoder\<close>: the calls
  \<open>Write(data, len)\<close> and \<open>Seek(pos, whence)\<close> in the order they are made. Every
  write of the file is from \<open>m_buffer\<close>. One of at most \<open>sizeof(m_buffer)\<close> bytes
  is recorded with the bytes it hands over, the first \<open>len\<close> of the array. A longer
  one reads past the end of the array: the language leaves open what the sink gets
  then, and the trace records the event with the length that was asked for.
\<close>

datatype sink_op = SinkWrite "uint8_t list" | SinkOverread nat | SinkSeek int int

text \<open>
  The object: the fields of \<open>CEncoderLame\<close> (\<open>m_encoder\<close> is \<open>None\<close> for a null
  handle, otherwise the state of the LAME context it points to; \<open>m_bitrate\<close> is \<open>None\<close>
  while uninitialised), together with the sink trace and the state of the C heap.
\<close>

record ('enc, 'h) session =
  m_encoder :: "'enc option"
  m_audio_pos :: int
  m_buffer :: m_buffer_t
  m_preset :: int
  m_bitrate :: "int option"
  sink :: "sink_op list"
  heap :: 'h

text \<open>\<open>kodi::addon::AudioEncoderInfoTag\<close>, the getters that \<open>Start\<close> calls.\<close>

record AudioEncoderInfoTag =
  GetChannels :: int
  GetBitsPerSample :: int
  GetSamplerate :: int
  GetTitle :: string
  GetArtist :: string
  GetAlbum :: string
  GetAlbumArtist :: string
  GetReleaseDate :: string
  GetTrack :: int
  GetGenre :: string
  GetComment :: string

text \<open>
  The functions of \<open>lame/lame.h\<close> that the file calls. Each takes the state of the
  context and returns the new one; a function with a result returns it first, and one
  that fills a buffer takes the buffer and its size and returns the buffer's new
  contents. A result is the value the code stores in its \<open>int\<close> variable. The first
  five fields are the header's enumeration constants for the presets and the
  instruction sets.
\<close>

record 'enc lame_api =
  MEDIUM :: int
  STANDARD :: int
  EXTREME :: int
  MMX :: int
  SSE :: int
  lame_init :: "'enc option"
  lame_set_brate :: "'enc \<Rightarrow> int \<Rightarrow> 'enc"
  lame_set_preset :: "'enc \<Rightarrow> int \<Rightarrow> 'enc"
  lame_set_asm_optimizations :: "'enc \<Rightarrow> int \<Rightarrow> int \<Rightarrow> 'enc"
  lame_set_in_samplerate :: "'enc \<Rightarrow> int \<Rightarrow> 'enc"
  lame_set_write_id3tag_automatic :: "'enc \<Rightarrow> int \<Rightarrow> 'enc"
  id3tag_init :: "'enc \<Rightarrow> 'enc"
  id3tag_set_title :: "'enc \<Rightarrow> string \<Rightarrow> 'enc"
  id3tag_set_artist :: "'enc \<Rightarrow> string \<Rightarrow> 'enc"
  id3tag_set_album :: "'enc \<Rightarrow> string \<Rightarrow> 'enc"
  id3tag_set_year :: "'enc \<Rightarrow> string \<Rightarrow> 'enc"
  id3tag_set_track :: "'enc \<Rightarrow> string \<Rightarrow> 'enc"
  id3tag_set_genre :: "'enc \<Rightarrow> string \<Rightarrow> int \<times> 'enc"
  id3tag_add_v2 :: "'enc \<Rightarrow> 'enc"
  id3tag_set_textinfo_utf16 :: "'enc \<Rightarrow> string \<Rightarrow> uint16_t list option \<Rightarrow> 'enc"
  id3tag_set_comment_utf16 :: "'enc \<Rightarrow> uint16_t list option \<Rightarrow> 'enc"
  lame_init_params :: "'enc \<Rightarrow> int \<times> 'enc"
  lame_get_id3v1_tag :: "'enc \<Rightarrow> m_buffer_t \<Rightarrow> nat \<Rightarrow> int \<times> m_buffer_t \<times> 'enc"
  lame_get_id3v2_tag :: "'enc \<Rightarrow> m_buffer_t \<Rightarrow> nat \<Rightarrow> int \<times> m_buffer_t \<times> 'enc"
  lame_get_lametag_frame :: "'enc \<Rightarrow> m_buffer_t \<Rightarrow> nat \<Rightarrow> int \<times> m_buffer_t \<times> 'enc"
  lame_encode_buffer_interleaved ::
    "'enc \<Rightarrow> uint8_t list \<Rightarrow> nat \<Rightarrow> m_buffer_t \<Rightarrow> nat \<Rightarrow> int \<times> m_buffer_t \<times> 'enc"
  lame_encode_flush :: "'enc \<Rightarrow> m_buffer_t \<Rightarrow> nat \<Rightarrow> int \<times> m_buffer_t \<times> 'enc"

text \<open>
  The rest of the environment: the host's integer settings, the allocator and
  \<open>iconv\<close>. \<open>calloc\<close> reports whether it returned a block; \<open>free\<close> releases one.
  \<open>iconv_open\<close> says whether a descriptor was obtained, and \<open>iconv_char\<close> converts
  the character at the head of the remaining input: the bytes it produces and the
  number of input bytes it takes, or \<open>None\<close> for an invalid or incomplete sequence.
\<close>

record 'h host =
  GetSettingInt :: "string \<Rightarrow> int"
  calloc :: "'h \<Rightarrow> nat \<Rightarrow> nat \<Rightarrow> bool \<times> 'h"
  free :: "'h \<Rightarrow> 'h"
  iconv_open :: "string \<Rightarrow> string \<Rightarrow> bool"
  iconv_char :: "string \<Rightarrow> (uint8_t list \<times> nat) option"

subsection \<open>The sink\<close>

text \<open>
  An \<open>int\<close> handed to a parameter of type \<open>size_t\<close> (64 bits): a negative one
  becomes a length far beyond any array.
\<close>

definition size_t_of_int :: "int \<Rightarrow> nat" where
  "size_t_of_int i = nat (i mod 2 ^ 64)"

definition sink_write :: "m_buffer_t \<Rightarrow> nat \<Rightarrow> sink_op" where
  "sink_write data len =
     (if len \<le> sizeof_m_buffer then SinkWrite (take len (bytes_of data))
      else SinkOverread len)"

definition Write :: "('enc, 'h) session \<Rightarrow> m_buffer_t \<Rightarrow> nat \<Rightarrow> ('enc, 'h) session" where
  "Write s data len = s\<lparr>sink := sink s @ [sink_write data len]\<rparr>"

definition SEEK_SET :: int where
  "SEEK_SET = 0"

definition Seek :: "('enc, 'h) session \<Rightarrow> int \<Rightarrow> int \<Rightarrow> ('enc, 'h) session" where
  "Seek s pos whence = s\<lparr>sink := sink s @ [SinkSeek pos whence]\<rparr>"

subsection \<open>Encode\<close>

definition bytes_per_frame :: nat where
  "bytes_per_frame = 2 * 2"

text \<open>
  The state of the loop of \<open>Encode\<close>: the object, the LAME context behind the
  non-null \<open>m_encoder\<close>, the input from \<open>stream\<close> on, and \<open>bytes_left\<close>.
\<close>

type_synonym ('enc, 'h) encode_state = "('enc, 'h) session \<times> 'enc \<times> uint8_t list \<times> nat"

text \<open>
  One pass of the loop body (lines 175 to 184): \<open>Inl\<close> is the \<open>return -1\<close> of line
  180, \<open>Inr\<close> the state the loop goes on with.
\<close>

definition Encode_body ::
  "'enc lame_api \<Rightarrow> ('enc, 'h) session \<Rightarrow> 'enc \<Rightarrow> uint8_t list \<Rightarrow> nat \<Rightarrow>
     ('enc, 'h) session + ('enc, 'h) encode_state" where
  "Encode_body api s e stream bytes_left =
     (let frames = min (bytes_left div bytes_per_frame) 4096;
          (written, buf, e') =
             lame_encode_buffer_interleaved api e stream frames (m_buffer s) sizeof_m_buffer;
          s = s\<lparr>m_encoder := Some e', m_buffer := buf\<rparr>
      in if written < 0 then Inl s
         else Inr (Write s (m_buffer s) (size_t_of_int written), e',
                   drop (frames * bytes_per_frame) stream,
                   bytes_left - frames * bytes_per_frame))"

text \<open>
  The loop \<open>while (bytes_left)\<close>. It need not end, so it is a partial function:
  \<open>None\<close> is a loop that runs forever. \<open>Inr\<close> carries \<open>bytes_left\<close> at the exit.
\<close>

partial_function (option) Encode_loop ::
  "'enc lame_api \<Rightarrow> ('enc, 'h) session \<Rightarrow> 'enc \<Rightarrow> uint8_t list \<Rightarrow> nat \<Rightarrow>
     (('enc, 'h) session + nat \<times> ('enc, 'h) session) option" where
  "Encode_loop api s e stream bytes_left =
     (if bytes_left \<noteq> 0 then
        (case Encode_body api s e stream bytes_left of
           Inl s' \<Rightarrow> Some (Inl s')
         | Inr st \<Rightarrow>
             (case st of (s', e', stream', bytes_left') \<Rightarrow>
                Encode_loop api s' e' stream' bytes_left'))
      else Some (Inr (bytes_left, s)))"

text \<open>
  \<open>Encode(stream, numBytesRead)\<close>: the \<open>ssize_t\<close> result and the object after the
  call, or \<open>None\<close> when the call does not return. The difference
  \<open>numBytesRead - bytes_left\<close> is at most the length of the input buffer, so its
  conversion to \<open>ssize_t\<close> keeps the value.
\<close>

definition Encode ::
  "'enc lame_api \<Rightarrow> ('enc, 'h) session \<Rightarrow> uint8_t list \<Rightarrow> nat \<Rightarrow>
     (int \<times> ('enc, 'h) session) option" where
  "Encode api s stream numBytesRead =
     (case m_encoder s of
        None \<Rightarrow> Some (- 1, s)
      | Some e \<Rightarrow>
          (case Encode_loop api s e stream numBytesRead of
             None \<Rightarrow> None
           | Some (Inl s') \<Rightarrow> Some (- 1, s')
           | Some (Inr (bytes_left, s')) \<Rightarrow> Some (int numBytesRead - int bytes_left, s')))"

text \<open>
  The loop state at the start of pass \<open>k + 1\<close>, after \<open>k\<close> complete passes; \<open>None\<close>
  when the loop has ended before that, by its condition or by the \<open>return -1\<close>.
\<close>

fun Encode_pass ::
  "'enc lame_api \<Rightarrow> nat \<Rightarrow> ('enc, 'h) encode_state \<Rightarrow> ('enc, 'h) encode_state option" where
  "Encode_pass api 0 st = Some st"
| "Encode_pass api (Suc k) (s, e, stream, bytes_left) =
     (if bytes_left = 0 then None
      else case Encode_body api s e stream bytes_left of
             Inl s' \<Rightarrow> None
           | Inr st' \<Rightarrow> Encode_pass api k st')"

text \<open>
  Pass \<open>k + 1\<close> is reached and its call of \<open>lame_encode_buffer_interleaved\<close>
  reports a negative result.
\<close>

definition Encode_pass_fails ::
  "'enc lame_api \<Rightarrow> ('enc, 'h) encode_state \<Rightarrow> nat \<Rightarrow> bool" where
  "Encode_pass_fails api st k =
     (case Encode_pass api k st of
        None \<Rightarrow> False
      | Some (s, e, stream, bytes_left) \<Rightarrow>
          bytes_left \<noteq> 0 \<and>
          fst (lame_encode_buffer_interleaved api e stream
                 (min (bytes_left div bytes_per_frame) 4096) (m_buffer s) sizeof_m_buffer) < 0)"

text \<open>
  What the encoder hands back in the first \<open>k\<close> passes over an input, told from the
  encoder alone: for each pass the buffer after its call and the result of the call.
  It is what the writes of \<open>Encode\<close> are compared with.
\<close>

fun Encode_outputs ::
  "'enc lame_api \<Rightarrow> nat \<Rightarrow> 'enc \<Rightarrow> uint8_t list \<Rightarrow> nat \<Rightarrow> m_buffer_t \<Rightarrow>
     (m_buffer_t \<times> int) list" where
  "Encode_outputs api 0 e stream bytes_left buf = []"
| "Encode_outputs api (Suc k) e stream bytes_left buf =
     (let frames = min (bytes_left div bytes_per_frame) 4096;
          (written, buf', e') =
             lame_encode_buffer_interleaved api e stream frames buf sizeof_m_buffer
      in (buf', written) #
         Encode_outputs api k e' (drop (frames * bytes_per_frame) stream)
           (bytes_left - frames * bytes_per_frame) buf')"

subsection \<open>Finish\<close>

definition Finish :: "'enc lame_api \<Rightarrow> ('enc, 'h) session \<Rightarrow> bool \<times> ('enc, 'h) session" where
  "Finish api s =
     (case m_encoder s of
        None \<Rightarrow> (False, s)
      | Some e \<Rightarrow>
          (let (written, buf, e) = lame_encode_flush api e (m_buffer s) sizeof_m_buffer;
               s = s\<lparr>m_encoder := Some e, m_buffer := buf\<rparr>
           in if written < 0 then (False, s)
              else
                (let s = Write s (m_buffer s) (size_t_of_int written);
                     (id3v1tag, buf, e) = lame_get_id3v1_tag api e (m_buffer s) sizeof_m_buffer;
                     s = s\<lparr>m_encoder := Some e, m_buffer := buf\<rparr>;
                     s = (if id3v1tag > 0 then Write s (m_buffer s) (size_t_of_int id3v1tag)
                          else s);
                     (lameTag, buf, e) =
                        lame_get_lametag_frame api e (m_buffer s) sizeof_m_buffer;
                     s = s\<lparr>m_encoder := Some e, m_buffer := buf\<rparr>;
                     s = (if m_audio_pos s \<noteq> 0 \<and> lameTag > 0
                          then Write (Seek s (m_audio_pos s) SEEK_SET) (m_buffer s)
                                 (size_t_of_int lameTag)
                          else s)
                 in (True, s))))"

subsection \<open>ToUtf16\<close>

text \<open>
  A C string is given by its bytes before the terminator, so \<open>strlen\<close> is the
  length; a null pointer is \<open>None\<close>. \<open>c_str\<close> of a \<open>std::string\<close> ends at the
  first zero byte.
\<close>

definition strlen :: "string \<Rightarrow> nat" where
  "strlen src = length src"

definition c_str :: "string \<Rightarrow> string" where
  "c_str str = takeWhile (\<lambda>c. c \<noteq> CHR 0x00) str"

text \<open>
  \<open>iconv(cd, &in, &inleft, &out, &outleft)\<close>, the bytes it stores at \<open>out\<close>: it
  converts one character after the other and stops at the end of the input, at a
  sequence it cannot convert, or when the next character does not fit in what is left
  of \<open>outleft\<close>.
\<close>

function iconv :: "(string \<Rightarrow> (uint8_t list \<times> nat) option) \<Rightarrow> string \<Rightarrow> nat \<Rightarrow> uint8_t list" where
  "iconv cd src avail =
     (if src = [] then []
      else case cd src of
             None \<Rightarrow> []
           | Some (out, k) \<Rightarrow>
               if avail < length out then []
               else out @ iconv cd (drop (max 1 k) src) (avail - length out))"
  by pat_completeness auto
termination
  by (relation "measure (\<lambda>(cd, src, avail). length src)") auto

text \<open>
  Bytes stored through a \<open>short unsigned int*\<close>, read back as 16-bit units on a
  little-endian host; a last single byte lands in the low half of a unit that
  \<open>calloc\<close> has zeroed.
\<close>

fun units_of_bytes :: "uint8_t list \<Rightarrow> uint16_t list" where
  "units_of_bytes (lo # hi # bs) = (ucast lo + 256 * ucast hi) # units_of_bytes bs"
| "units_of_bytes [lo] = [ucast lo]"
| "units_of_bytes [] = []"

definition store_units :: "uint16_t list \<Rightarrow> nat \<Rightarrow> uint16_t list \<Rightarrow> uint16_t list" where
  "store_units dst i us = take i dst @ us @ drop (i + length us) dst"

definition ToUtf16 :: "'h host \<Rightarrow> 'h \<Rightarrow> string option \<Rightarrow> uint16_t list option \<times> 'h" where
  "ToUtf16 host h src =
     (case src of
        None \<Rightarrow> (None, h)
      | Some str \<Rightarrow>
          (let l = strlen str;
               n = (l + 1) * 4;
               (ok, h) = calloc host h (n + 4) 4
           in if \<not> ok then (None, h)
              else
                (let dst = replicate ((n + 4) * 4 div 2) 0;
                     dst = dst[0 := 0xfeff]
                 in if iconv_open host ''UTF-16LE//TRANSLIT'' ''UTF-8''
                    then (Some (store_units dst 1 (units_of_bytes (iconv (iconv_char host) str n))), h)
                    else (Some dst, h))))"

subsection \<open>Start\<close>

text \<open>\<open>std::to_string\<close> on an \<open>int\<close>: the decimal digits, with a sign when negative.\<close>

function decimal :: "nat \<Rightarrow> string" where
  "decimal n =
     (if n < 10 then [''0123456789'' ! n]
      else decimal (n div 10) @ [''0123456789'' ! (n mod 10)])"
  by pat_completeness auto
termination
  by (relation "measure (\<lambda>n. n)") auto

definition to_string :: "int \<Rightarrow> string" where
  "to_string i = (if i < 0 then CHR ''-'' # decimal (nat (- i)) else decimal (nat i))"

text \<open>\<open>free(value)\<close>: nothing happens for a null pointer.\<close>

definition free_value :: "'h host \<Rightarrow> 'h \<Rightarrow> uint16_t list option \<Rightarrow> 'h" where
  "free_value host h v = (case v of None \<Rightarrow> h | Some _ \<Rightarrow> free host h)"

text \<open>
  One group of three lines of the version 2 block:
  \<open>value = ToUtf16(str.c_str()); id3tag_set_textinfo_utf16(m_encoder, id, value);
  free(value);\<close>
\<close>

definition set_textinfo ::
  "'enc lame_api \<Rightarrow> 'h host \<Rightarrow> string \<Rightarrow> string \<Rightarrow> 'enc \<times> 'h \<Rightarrow> 'enc \<times> 'h" where
  "set_textinfo api host fid str eh =
     (case eh of (e, h) \<Rightarrow>
        (let (v, h) = ToUtf16 host h (Some (c_str str));
             e = id3tag_set_textinfo_utf16 api e fid v
         in (e, free_value host h v)))"

text \<open>
  Lines 82 to 93: the sample rate, the switch for automatic tags, and the fields of
  the tag up to the track.
\<close>

definition Start_fields :: "'enc lame_api \<Rightarrow> AudioEncoderInfoTag \<Rightarrow> 'enc \<Rightarrow> 'enc" where
  "Start_fields api tag e =
     (let e = lame_set_in_samplerate api e (GetSamplerate tag);
          e = lame_set_write_id3tag_automatic api e 0;
          e = id3tag_init api e;
          e = id3tag_set_title api e (c_str (GetTitle tag));
          e = id3tag_set_artist api e (c_str (GetArtist tag));
          e = id3tag_set_album api e (c_str (GetAlbum tag));
          e = id3tag_set_year api e (c_str (GetReleaseDate tag));
          e = id3tag_set_track api e (c_str (to_string (GetTrack tag)))
      in e)"

text \<open>Lines 99 to 140: the UTF-16 fields, when version 2 is asked for.\<close>

definition Start_id3v2 ::
  "'enc lame_api \<Rightarrow> 'h host \<Rightarrow> AudioEncoderInfoTag \<Rightarrow> bool \<Rightarrow> 'enc \<times> 'h \<Rightarrow> 'enc \<times> 'h" where
  "Start_id3v2 api host tag useVer2 eh =
     (if useVer2 then
        (let eh = (id3tag_add_v2 api (fst eh), snd eh);
             eh = set_textinfo api host ''TPE1'' (GetArtist tag) eh;
             eh = set_textinfo api host ''TIT2'' (GetTitle tag) eh;
             eh = set_textinfo api host ''TPE1'' (GetArtist tag) eh;
             eh = set_textinfo api host ''TPE2'' (GetAlbumArtist tag) eh;
             eh = set_textinfo api host ''TALB'' (GetAlbum tag) eh;
             eh = set_textinfo api host ''TYER'' (GetReleaseDate tag) eh;
             eh = set_textinfo api host ''TRCK'' (to_string (GetTrack tag)) eh;
             eh = set_textinfo api host ''TCON'' (GetGenre tag) eh;
             (v, h) = ToUtf16 host (snd eh) (Some (c_str (GetComment tag)));
             e = id3tag_set_comment_utf16 api (fst eh) v
         in (e, free_value host h v))
      else eh)"

text \<open>
  Lines 142 to 161: \<open>lame_init_params\<close>, then the tag is fetched into \<open>m_buffer\<close>,
  written to the sink and its length kept in \<open>m_audio_pos\<close>.
\<close>

definition Start_write_tag ::
  "'enc lame_api \<Rightarrow> ('enc, 'h) session \<Rightarrow> bool \<Rightarrow> 'enc \<times> 'h \<Rightarrow> bool \<times> ('enc, 'h) session" where
  "Start_write_tag api s useVer2 eh =
     (let (r, e) = lame_init_params api (fst eh);
          s = s\<lparr>m_encoder := Some e, heap := snd eh\<rparr>
      in if r < 0 then (False, s)
         else
           (let (tag_length, buf, e) =
                  (if useVer2 then lame_get_id3v2_tag api e (m_buffer s) sizeof_m_buffer
                   else lame_get_id3v1_tag api e (m_buffer s) sizeof_m_buffer);
                s = s\<lparr>m_encoder := Some e, m_buffer := buf\<rparr>;
                s = (if tag_length \<noteq> 0
                     then (Write s (m_buffer s) (size_t_of_int tag_length))
                            \<lparr>m_audio_pos := tag_length\<rparr>
                     else s)
            in (True, s)))"

text \<open>Lines 94 to 96: the genre, and \<open>Other\<close> when the result is \<open>- 1\<close>.\<close>

definition Start_genre :: "'enc lame_api \<Rightarrow> AudioEncoderInfoTag \<Rightarrow> 'enc \<Rightarrow> 'enc" where
  "Start_genre api tag e =
     (let (test, e) = id3tag_set_genre api e (c_str (GetGenre tag))
      in if test = - 1 then snd (id3tag_set_genre api e ''Other'') else e)"

text \<open>
  \<open>Start(tag)\<close>, put together from the parts above in the order of the source; the
  log message of line 78 is not modelled.
\<close>

definition Start ::
  "'enc lame_api \<Rightarrow> 'h host \<Rightarrow> ('enc, 'h) session \<Rightarrow> AudioEncoderInfoTag \<Rightarrow>
     bool \<times> ('enc, 'h) session" where
  "Start api host s tag =
     (case m_encoder s of
        None \<Rightarrow> (False, s)
      | Some e \<Rightarrow>
          if GetChannels tag \<noteq> 2 \<or> GetBitsPerSample tag \<noteq> 16 then (False, s)
          else
            (let e = Start_fields api tag e;
                 e = Start_genre api tag e;
                 useVer2 = (GetSettingInt host ''id3version'' = 2)
             in Start_write_tag api s useVer2
                  (Start_id3v2 api host tag useVer2 (e, heap s))))"

subsection \<open>The constructor\<close>

text \<open>
  Arithmetic on \<open>int\<close> (32 bits): the result wraps around, as the compiled code's
  does where the language leaves the overflow open.
\<close>

definition int32 :: "int \<Rightarrow> int" where
  "int32 i = sint (word_of_int i :: 32 word)"

text \<open>
  \<open>CEncoderLame(instance, version)\<close>, with the heap and the contents of the
  not yet written \<open>m_buffer\<close> given; the sink starts empty.
\<close>

definition CEncoderLame ::
  "'enc lame_api \<Rightarrow> 'h host \<Rightarrow> 'h \<Rightarrow> m_buffer_t \<Rightarrow> ('enc, 'h) session" where
  "CEncoderLame api host h buf =
     (let s = \<lparr>m_encoder = lame_init api, m_audio_pos = 0, m_buffer = buf, m_preset = - 1,
               m_bitrate = None, sink = [], heap = h\<rparr>
      in case m_encoder s of
           None \<Rightarrow> s
         | Some e \<Rightarrow>
             (let val = GetSettingInt host ''preset'';
                  s = (if val = 0 then s\<lparr>m_preset := MEDIUM api\<rparr>
                       else if val = 1 then s\<lparr>m_preset := STANDARD api\<rparr>
                       else if val = 2 then s\<lparr>m_preset := EXTREME api\<rparr>
                       else s);
                  bitrate = int32 (128 + int32 (32 * GetSettingInt host ''bitrate''));
                  s = s\<lparr>m_bitrate := Some bitrate\<rparr>;
                  e = (if m_preset s = - 1 then lame_set_brate api e bitrate
                       else lame_set_preset api e (m_preset s));
                  e = lame_set_asm_optimizations api e (MMX api) 1;
                  e = lame_set_asm_optimizations api e (SSE api) 1
              in s\<lparr>m_encoder := Some e\<rparr>))"

subsection \<open>A small encoder to run the model on\<close>

text \<open>
  An instance of the parameters for concrete runs: a context that keeps the genre of
  the tag and counts the calls of the encode step, knows the genres \<open>Rock\<close> and
  \<open>Other\<close>, composes a tag from a three-letter mark and the genre, and turns every
  frame into one byte. What it produces it stores at the start of the buffer. Its heap
  is the number of live blocks, and its \<open>iconv\<close> converts ASCII.
\<close>

record toy_enc =
  toy_genre :: string
  toy_calls :: nat

definition toy_tag_bytes :: "string \<Rightarrow> toy_enc \<Rightarrow> uint8_t list" where
  "toy_tag_bytes mark e = map of_char (mark @ toy_genre e)"

definition toy_lame :: "toy_enc lame_api" where
  "toy_lame =
     \<lparr>MEDIUM = 1006, STANDARD = 1001, EXTREME = 1002, MMX = 1, SSE = 3,
      lame_init = Some \<lparr>toy_genre = [], toy_calls = 0\<rparr>,
      lame_set_brate = (\<lambda>e _. e),
      lame_set_preset = (\<lambda>e _. e),
      lame_set_asm_optimizations = (\<lambda>e _ _. e),
      lame_set_in_samplerate = (\<lambda>e _. e),
      lame_set_write_id3tag_automatic = (\<lambda>e _. e),
      id3tag_init = (\<lambda>e. e\<lparr>toy_genre := []\<rparr>),
      id3tag_set_title = (\<lambda>e _. e),
      id3tag_set_artist = (\<lambda>e _. e),
      id3tag_set_album = (\<lambda>e _. e),
      id3tag_set_year = (\<lambda>e _. e),
      id3tag_set_track = (\<lambda>e _. e),
      id3tag_set_genre =
        (\<lambda>e g. if g = ''Rock'' \<or> g = ''Other'' then (0, e\<lparr>toy_genre := g\<rparr>) else (- 1, e)),
      id3tag_add_v2 = (\<lambda>e. e),
      id3tag_set_textinfo_utf16 = (\<lambda>e _ _. e),
      id3tag_set_comment_utf16 = (\<lambda>e _. e),
      lame_init_params = (\<lambda>e. (0, e)),
      lame_get_id3v1_tag =
        (\<lambda>e buf size.
           (int (length (toy_tag_bytes ''TAG'' e)), fill (toy_tag_bytes ''TAG'' e) buf, e)),
      lame_get_id3v2_tag =
        (\<lambda>e buf size.
           (int (length (toy_tag_bytes ''ID3'' e)), fill (toy_tag_bytes ''ID3'' e) buf, e)),
      lame_get_lametag_frame = (\<lambda>e buf size. (4, fill [0xFF, 0xFB, 0x90, 0x64] buf, e)),
      lame_encode_buffer_interleaved =
        (\<lambda>e pcm frames buf size.
           (int frames, fill (take frames pcm) buf, e\<lparr>toy_calls := Suc (toy_calls e)\<rparr>)),
      lame_encode_flush = (\<lambda>e buf size. (0, buf, e))\<rparr>"

text \<open>The same encoder, but the encode step fails on a batch that is not full.\<close>

definition toy_lame_short :: "toy_enc lame_api" where
  "toy_lame_short =
     toy_lame\<lparr>lame_encode_buffer_interleaved :=
       (\<lambda>e pcm frames buf size.
          if frames < 4096 then (- 1, buf, e\<lparr>toy_calls := Suc (toy_calls e)\<rparr>)
          else (int frames, fill (take frames pcm) buf,
                e\<lparr>toy_calls := Suc (toy_calls e)\<rparr>))\<rparr>"

text \<open>
  The same encoder, but its version 2 tag needs 70000 bytes: as LAME does when the
  buffer is too small, the fetch answers the size that is needed and stores nothing.
\<close>

definition toy_lame_long :: "toy_enc lame_api" where
  "toy_lame_long = toy_lame\<lparr>lame_get_id3v2_tag := (\<lambda>e buf size. (70000, buf, e))\<rparr>"



text \<open>The same encoder, but the flush fails.\<close>

definition toy_lame_noflush :: "toy_enc lame_api" where
  "toy_lame_noflush = toy_lame\<lparr>lame_encode_flush := (\<lambda>e buf size. (- 1, buf, e))\<rparr>"

definition toy_host :: "int \<Rightarrow> nat host" where
  "toy_host id3version =
     \<lparr>GetSettingInt = (\<lambda>key. if key = ''id3version'' then id3version else 0),
      calloc = (\<lambda>h nmemb size. (True, Suc h)),
      free = (\<lambda>h. h - 1),
      iconv_open = (\<lambda>tocode fromcode. True),
      iconv_char = (\<lambda>src. case src of [] \<Rightarrow> None | c # _ \<Rightarrow> Some ([of_char c, 0], 1))\<rparr>"

definition toy_session :: "(toy_enc, nat) session" where
  "toy_session =
     \<lparr>m_encoder = Some \<lparr>toy_genre = [], toy_calls = 0\<rparr>, m_audio_pos = 0,
      m_buffer = zero_buffer,
      m_preset = - 1, m_bitrate = Some 128, sink = [], heap = 0\<rparr>"

definition toy_tag :: "string \<Rightarrow> AudioEncoderInfoTag" where
  "toy_tag g =
     \<lparr>GetChannels = 2, GetBitsPerSample = 16, GetSamplerate = 44100, GetTitle = ''T'',
      GetArtist = ''A'', GetAlbum = ''L'', GetAlbumArtist = ''B'', GetReleaseDate = ''2001'',
      GetTrack = 7, GetGenre = g, GetComment = ''C''\<rparr>"

section \<open>Properties\<close>

subsection \<open>The buffer\<close>

lemma length_bytes_of: "length (bytes_of buf) = sizeof_m_buffer"
  using Rep_m_buffer_t [of buf] by (simp add: bytes_of_def)

lemma bytes_of_zero_buffer: "bytes_of zero_buffer = replicate sizeof_m_buffer 0"
  by (simp add: bytes_of_def zero_buffer_def Abs_m_buffer_t_inverse)

lemma bytes_of_fill:
  "bytes_of (fill out buf) = take sizeof_m_buffer (out @ drop (length out) (bytes_of buf))"
proof -
  have "length (take sizeof_m_buffer (out @ drop (length out) (bytes_of buf))) =
          sizeof_m_buffer"
    by (simp add: length_bytes_of)
  then show ?thesis
    by (simp add: fill_def bytes_of_def [of "Abs_m_buffer_t _"] Abs_m_buffer_t_inverse)
qed

lemma sink_write_fill:
  "length out \<le> sizeof_m_buffer \<Longrightarrow> sink_write (fill out buf) (length out) = SinkWrite out"
  by (simp add: sink_write_def bytes_of_fill)

lemma size_t_of_int_nat: "n < 2 ^ 64 \<Longrightarrow> size_t_of_int (int n) = n"
proof -
  assume "n < 2 ^ 64"
  then have "int n < 2 ^ 64" by (metis of_nat_less_iff of_nat_numeral of_nat_power)
  then have "int n mod 2 ^ 64 = int n" by simp
  then show ?thesis by (simp add: size_t_of_int_def)
qed

subsection \<open>The loop of Encode\<close>

lemma Encode_loop_zero: "Encode_loop api s e stream 0 = Some (Inr (0, s))"
  by (subst Encode_loop.simps) simp

lemma Encode_body_Inl_iff:
  "isl (Encode_body api s e stream bl) \<longleftrightarrow>
     fst (lame_encode_buffer_interleaved api e stream
            (min (bl div bytes_per_frame) 4096) (m_buffer s) sizeof_m_buffer) < 0"
  by (simp add: Encode_body_def Let_def split: prod.splits)

lemma Encode_body_Inl_sink:
  "Encode_body api s e stream bl = Inl s' \<Longrightarrow> sink s' = sink s \<and> m_audio_pos s' = m_audio_pos s"
  by (auto simp add: Encode_body_def Let_def split: prod.splits if_splits)

lemma Encode_body_Inr_left:
  "Encode_body api s e stream bl = Inr (s', e', stream', bl') \<Longrightarrow>
     bl' = bl - min (bl div 4) 4096 * 4"
  by (auto simp add: Encode_body_def Let_def bytes_per_frame_def split: prod.splits if_splits)

lemma Encode_loop_pass:
  "Encode_pass api k (s, e, stream, bl) = Some (s', e', stream', bl') \<Longrightarrow>
     Encode_loop api s e stream bl = Encode_loop api s' e' stream' bl'"
proof (induction k arbitrary: s e stream bl)
  case 0
  then show ?case by simp
next
  case (Suc k)
  from Suc.prems obtain s1 e1 stream1 bl1 where
    nz: "bl \<noteq> 0" and
    body: "Encode_body api s e stream bl = Inr (s1, e1, stream1, bl1)" and
    rest: "Encode_pass api k (s1, e1, stream1, bl1) = Some (s', e', stream', bl')"
    by (auto split: if_splits sum.splits)
  have "Encode_loop api s e stream bl = Encode_loop api s1 e1 stream1 bl1"
    using nz body by (subst Encode_loop.simps) simp
  with Suc.IH [OF rest] show ?case by simp
qed

lemma Encode_loop_fails:
  assumes "Encode_pass api k (s, e, stream, bl) = Some (s', e', stream', bl')"
    and "bl' \<noteq> 0"
    and "fst (lame_encode_buffer_interleaved api e' stream'
                 (min (bl' div bytes_per_frame) 4096) (m_buffer s') sizeof_m_buffer) < 0"
  shows "\<exists>s''. Encode_loop api s e stream bl = Some (Inl s'') \<and> sink s'' = sink s'"
proof -
  from assms(3) have "isl (Encode_body api s' e' stream' bl')"
    by (simp add: Encode_body_Inl_iff)
  then obtain s'' where b: "Encode_body api s' e' stream' bl' = Inl s''"
    by (cases "Encode_body api s' e' stream' bl'") auto
  have "Encode_loop api s' e' stream' bl' = Some (Inl s'')"
    using assms(2) b by (subst Encode_loop.simps) simp
  with Encode_loop_pass [OF assms(1)] Encode_body_Inl_sink [OF b] show ?thesis by simp
qed


lemma Encode_pass_fails_0:
  "Encode_pass_fails api (s, e, stream, bl) 0 \<longleftrightarrow>
     bl \<noteq> 0 \<and> isl (Encode_body api s e stream bl)"
  by (simp add: Encode_pass_fails_def Encode_body_Inl_iff)

lemma Encode_pass_fails_Suc:
  "bl \<noteq> 0 \<Longrightarrow> Encode_body api s e stream bl = Inr st' \<Longrightarrow>
     Encode_pass_fails api (s, e, stream, bl) (Suc k) = Encode_pass_fails api st' k"
  by (simp add: Encode_pass_fails_def)

lemma Encode_loop_Inl_aux:
  assumes "Encode_loop api s e stream bl = Some y"
  shows "\<forall>s''. y = Inl s'' \<longrightarrow>
     (\<exists>k s' e' stream' bl'.
        Encode_pass api k (s, e, stream, bl) = Some (s', e', stream', bl') \<and>
        Encode_pass_fails api (s, e, stream, bl) k \<and> sink s'' = sink s')"
proof (rule Encode_loop.raw_induct [where P = "\<lambda>api s e stream bl y. \<forall>s''. y = Inl s'' \<longrightarrow>
     (\<exists>k s' e' stream' bl'.
        Encode_pass api k (s, e, stream, bl) = Some (s', e', stream', bl') \<and>
        Encode_pass_fails api (s, e, stream, bl) k \<and> sink s'' = sink s')", OF _ assms])
  fix loop :: "'a lame_api \<Rightarrow> ('a, 'b) session \<Rightarrow> 'a \<Rightarrow> uint8_t list \<Rightarrow> nat \<Rightarrow>
     (('a, 'b) session + nat \<times> ('a, 'b) session) option"
  fix api s e stream bl y
  assume IH: "\<And>api s e stream bl y. loop api s e stream bl = Some y \<Longrightarrow>
     \<forall>s''. y = Inl s'' \<longrightarrow>
     (\<exists>k s' e' stream' bl'.
        Encode_pass api k (s, e, stream, bl) = Some (s', e', stream', bl') \<and>
        Encode_pass_fails api (s, e, stream, bl) k \<and> sink s'' = sink s')"
  assume step: "(if bl \<noteq> 0 then
        (case Encode_body api s e stream bl of
           Inl s' \<Rightarrow> Some (Inl s')
         | Inr st \<Rightarrow>
             (case st of (s', e', stream', bytes_left') \<Rightarrow>
                loop api s' e' stream' bytes_left'))
      else Some (Inr (bl, s))) = Some y"
  show "\<forall>s''. y = Inl s'' \<longrightarrow>
     (\<exists>k s' e' stream' bl'.
        Encode_pass api k (s, e, stream, bl) = Some (s', e', stream', bl') \<and>
        Encode_pass_fails api (s, e, stream, bl) k \<and> sink s'' = sink s')"
  proof (intro allI impI)
    fix s''
    assume y: "y = Inl s''"
    with step have nz: "bl \<noteq> 0" by (auto split: if_splits)
    show "\<exists>k s' e' stream' bl'.
        Encode_pass api k (s, e, stream, bl) = Some (s', e', stream', bl') \<and>
        Encode_pass_fails api (s, e, stream, bl) k \<and> sink s'' = sink s'"
    proof (cases "Encode_body api s e stream bl")
      case (Inl s1)
      with step y nz have "s'' = s1" by simp
      with Inl nz have "Encode_pass api 0 (s, e, stream, bl) = Some (s, e, stream, bl) \<and>
          Encode_pass_fails api (s, e, stream, bl) 0 \<and> sink s'' = sink s"
        by (simp add: Encode_pass_fails_0 Encode_body_Inl_sink)
      then show ?thesis by blast
    next
      case (Inr st)
      obtain s1 e1 stream1 bl1 where st: "st = (s1, e1, stream1, bl1)"
        by (cases st) auto
      from step nz Inr st have "loop api s1 e1 stream1 bl1 = Some y" by simp
      from IH [OF this] y obtain k s' e' stream' bl' where
        p: "Encode_pass api k (s1, e1, stream1, bl1) = Some (s', e', stream', bl')" and
        f: "Encode_pass_fails api (s1, e1, stream1, bl1) k" and
        k: "sink s'' = sink s'"
        by blast
      have "Encode_pass api (Suc k) (s, e, stream, bl) = Some (s', e', stream', bl')"
        using nz Inr st p by simp
      moreover have "Encode_pass_fails api (s, e, stream, bl) (Suc k)"
        using Encode_pass_fails_Suc [OF nz Inr] f st by simp
      ultimately show ?thesis using k by blast
    qed
  qed
qed

lemma Encode_loop_Inr_aux:
  assumes "Encode_loop api s e stream bl = Some y"
  shows "\<forall>bl' s'. y = Inr (bl', s') \<longrightarrow> bl' = 0 \<and> 4 dvd bl"
proof (rule Encode_loop.raw_induct [where P = "\<lambda>api s e stream bl y.
     \<forall>bl' s'. y = Inr (bl', s') \<longrightarrow> bl' = 0 \<and> 4 dvd bl", OF _ assms])
  fix loop :: "'a lame_api \<Rightarrow> ('a, 'b) session \<Rightarrow> 'a \<Rightarrow> uint8_t list \<Rightarrow> nat \<Rightarrow>
     (('a, 'b) session + nat \<times> ('a, 'b) session) option"
  fix api s e stream bl y
  assume IH: "\<And>api s e stream bl y. loop api s e stream bl = Some y \<Longrightarrow>
     \<forall>bl' s'. y = Inr (bl', s') \<longrightarrow> bl' = 0 \<and> 4 dvd bl"
  assume step: "(if bl \<noteq> 0 then
        (case Encode_body api s e stream bl of
           Inl s' \<Rightarrow> Some (Inl s')
         | Inr st \<Rightarrow>
             (case st of (s', e', stream', bytes_left') \<Rightarrow>
                loop api s' e' stream' bytes_left'))
      else Some (Inr (bl, s))) = Some y"
  show "\<forall>bl' s'. y = Inr (bl', s') \<longrightarrow> bl' = 0 \<and> 4 dvd bl"
  proof (intro allI impI)
    fix bl' s'
    assume y: "y = Inr (bl', s')"
    show "bl' = 0 \<and> 4 dvd bl"
    proof (cases "bl = 0")
      case True
      with step y show ?thesis by simp
    next
      case nz: False
      show ?thesis
      proof (cases "Encode_body api s e stream bl")
        case (Inl s1)
        with step y nz show ?thesis by simp
      next
        case (Inr st)
        obtain s1 e1 stream1 bl1 where st: "st = (s1, e1, stream1, bl1)"
          by (cases st) auto
        from step nz Inr st have "loop api s1 e1 stream1 bl1 = Some y" by simp
        from IH [OF this] y have z: "bl' = 0" and d: "4 dvd bl1" by simp_all
        from Inr st have "bl1 = bl - min (bl div 4) 4096 * 4"
          by (simp add: Encode_body_Inr_left)
        moreover have "min (bl div 4) 4096 * 4 \<le> bl" by simp
        ultimately have "bl = bl1 + min (bl div 4) 4096 * 4" by simp
        with d have "4 dvd bl" by (metis dvd_add dvd_triv_right)
        with z show ?thesis by simp
      qed
    qed
  qed
qed

lemma Encode_loop_returns:
  "4 dvd bl \<Longrightarrow> \<forall>k. \<not> Encode_pass_fails api (s, e, stream, bl) k \<Longrightarrow>
     \<exists>s'. Encode_loop api s e stream bl = Some (Inr (0, s'))"
proof (induction bl arbitrary: s e stream rule: less_induct)
  case (less bl)
  show ?case
  proof (cases "bl = 0")
    case True
    then show ?thesis by (simp add: Encode_loop_zero)
  next
    case nz: False
    from less.prems(2) nz have "\<not> isl (Encode_body api s e stream bl)"
      using Encode_pass_fails_0 [of api s e stream bl] by blast
    then obtain s1 e1 stream1 bl1 where
      body: "Encode_body api s e stream bl = Inr (s1, e1, stream1, bl1)"
      by (cases "Encode_body api s e stream bl") auto
    then have bl1: "bl1 = bl - min (bl div 4) 4096 * 4"
      by (simp add: Encode_body_Inr_left)
    from less.prems(1) nz have "4 \<le> bl" by (simp add: dvd_imp_le)
    then have "0 < min (bl div 4) 4096" by simp
    with bl1 nz have lt: "bl1 < bl" by simp
    have "min (bl div 4) 4096 * 4 \<le> bl" by simp
    with bl1 have "bl = bl1 + min (bl div 4) 4096 * 4" by simp
    with less.prems(1) have d: "4 dvd bl1"
      by (metis dvd_add_left_iff dvd_triv_right)
    have nf: "\<forall>k. \<not> Encode_pass_fails api (s1, e1, stream1, bl1) k"
      using less.prems(2) Encode_pass_fails_Suc [OF nz body] by blast
    from less.IH [OF lt d nf] obtain s' where
      "Encode_loop api s1 e1 stream1 bl1 = Some (Inr (0, s'))" by blast
    moreover have "Encode_loop api s e stream bl = Encode_loop api s1 e1 stream1 bl1"
      using nz body by (subst Encode_loop.simps) simp
    ultimately show ?thesis by simp
  qed
qed

lemma Encode_body_Inr:
  assumes "Encode_body api s e stream bl = Inr (s', e', stream', bl')"
  shows "\<exists>written buf.
           lame_encode_buffer_interleaved api e stream (min (bl div bytes_per_frame) 4096)
             (m_buffer s) sizeof_m_buffer = (written, buf, e') \<and>
           s' = Write (s\<lparr>m_encoder := Some e', m_buffer := buf\<rparr>) buf (size_t_of_int written) \<and>
           stream' = drop (min (bl div bytes_per_frame) 4096 * bytes_per_frame) stream \<and>
           bl' = bl - min (bl div bytes_per_frame) 4096 * bytes_per_frame"
  using assms by (auto simp add: Encode_body_def Let_def split: prod.splits if_splits)

lemma Encode_pass_sink:
  "Encode_pass api k (s, e, stream, bl) = Some (s', e', stream', bl') \<Longrightarrow>
     sink s' = sink s @ map (\<lambda>(buf, written). sink_write buf (size_t_of_int written))
                          (Encode_outputs api k e stream bl (m_buffer s))"
proof (induction k arbitrary: s e stream bl)
  case 0
  then show ?case by simp
next
  case (Suc k)
  from Suc.prems obtain s1 e1 stream1 bl1 where
    body: "Encode_body api s e stream bl = Inr (s1, e1, stream1, bl1)" and
    rest: "Encode_pass api k (s1, e1, stream1, bl1) = Some (s', e', stream', bl')"
    by (auto split: if_splits sum.splits)
  from Encode_body_Inr [OF body] obtain written buf where
    l: "lame_encode_buffer_interleaved api e stream (min (bl div bytes_per_frame) 4096)
          (m_buffer s) sizeof_m_buffer = (written, buf, e1)" and
    s1: "s1 = Write (s\<lparr>m_encoder := Some e1, m_buffer := buf\<rparr>) buf (size_t_of_int written)" and
    st: "stream1 = drop (min (bl div bytes_per_frame) 4096 * bytes_per_frame) stream" and
    bl: "bl1 = bl - min (bl div bytes_per_frame) 4096 * bytes_per_frame"
    by blast
  from s1 have b1: "m_buffer s1 = buf"
    and k1: "sink s1 = sink s @ [sink_write buf (size_t_of_int written)]"
    by (simp_all add: Write_def)
  have o: "Encode_outputs api (Suc k) e stream bl (m_buffer s) =
             (buf, written) # Encode_outputs api k e1 stream1 bl1 buf"
    using l st bl by (simp add: Let_def)
  from Suc.IH [OF rest] b1 k1 o show ?case by simp
qed

lemma Encode_fails_returns:
  assumes "m_encoder s = Some e" and "Encode_pass_fails api (s, e, stream, n) k"
  shows "\<exists>s'. Encode api s stream n = Some (- 1, s')"
proof -
  from assms(2) obtain s1 e1 stream1 bl1 where
    p: "Encode_pass api k (s, e, stream, n) = Some (s1, e1, stream1, bl1)" and
    nz: "bl1 \<noteq> 0" and
    neg: "fst (lame_encode_buffer_interleaved api e1 stream1
                 (min (bl1 div bytes_per_frame) 4096) (m_buffer s1) sizeof_m_buffer) < 0"
    by (auto simp add: Encode_pass_fails_def split: option.splits)
  from Encode_loop_fails [OF p nz neg] obtain s'' where
    "Encode_loop api s e stream n = Some (Inl s'')" by blast
  with assms(1) show ?thesis by (simp add: Encode_def)
qed

lemma Encode_negative_fails:
  assumes "m_encoder s = Some e" and "Encode api s stream n = Some (r, s')" and "r < 0"
  shows "r = - 1 \<and> (\<exists>k. Encode_pass_fails api (s, e, stream, n) k \<and>
            sink s' = sink s @ map (\<lambda>(buf, written). sink_write buf (size_t_of_int written))
                                 (Encode_outputs api k e stream n (m_buffer s)))"
proof (cases "Encode_loop api s e stream n")
  case None
  with assms(1,2) show ?thesis by (simp add: Encode_def)
next
  case (Some y)
  show ?thesis
  proof (cases y)
    case (Inl s'')
    with Some assms(1,2) have r: "r = - 1" and s': "s' = s''" by (simp_all add: Encode_def)
    from Encode_loop_Inl_aux [OF Some] Inl obtain k s1 e1 stream1 bl1 where
      p: "Encode_pass api k (s, e, stream, n) = Some (s1, e1, stream1, bl1)" and
      f: "Encode_pass_fails api (s, e, stream, n) k" and
      k: "sink s'' = sink s1"
      by blast
    from Encode_pass_sink [OF p] r s' f k show ?thesis by auto
  next
    case (Inr b)
    obtain bl' s'' where b: "b = (bl', s'')" by (cases b) auto
    with Inr Encode_loop_Inr_aux [OF Some] have "bl' = 0" by simp
    with Some Inr b assms(1,2) have "r = int n" by (simp add: Encode_def)
    with assms(3) show ?thesis by simp
  qed
qed

lemma Encode_remainder_diverges:
  assumes "m_encoder s = Some e" and "\<not> 4 dvd n"
    and "\<forall>k. \<not> Encode_pass_fails api (s, e, stream, n) k"
  shows "Encode api s stream n = None"
proof -
  have "Encode_loop api s e stream n = None"
  proof (cases "Encode_loop api s e stream n")
    case None
    then show ?thesis .
  next
    case (Some y)
    show ?thesis
    proof (cases y)
      case (Inl s'')
      with Encode_loop_Inl_aux [OF Some] assms(3) show ?thesis by blast
    next
      case (Inr b)
      obtain bl' s'' where "b = (bl', s'')" by (cases b) auto
      with Inr Encode_loop_Inr_aux [OF Some] assms(2) show ?thesis by simp
    qed
  qed
  with assms(1) show ?thesis by (simp add: Encode_def)
qed

subsection \<open>The small encoder in the loop\<close>

lemma toy_lame_never_fails: "\<not> Encode_pass_fails toy_lame st k"
  by (simp add: Encode_pass_fails_def toy_lame_def split: option.splits prod.splits)

lemma toy_short_pass:
  "Encode_body toy_lame_short toy_session \<lparr>toy_genre = [], toy_calls = 0\<rparr>
     (replicate 16388 7) 16388 =
   Inr (toy_session\<lparr>m_encoder := Some \<lparr>toy_genre = [], toy_calls = 1\<rparr>,
                     m_buffer := fill (replicate 4096 7) zero_buffer,
                     sink := [SinkWrite (replicate 4096 7)]\<rparr>,
        \<lparr>toy_genre = [], toy_calls = 1\<rparr>, replicate 4 7, 4)"
  by (simp add: Encode_body_def toy_lame_short_def toy_lame_def bytes_per_frame_def Let_def
      Write_def toy_session_def size_t_of_int_def sink_write_def bytes_of_fill
      sizeof_m_buffer_def)

lemma toy_short_fails_iff:
  "Encode_pass_fails toy_lame_short
     (toy_session, \<lparr>toy_genre = [], toy_calls = 0\<rparr>, replicate 16388 7, 16388) k \<longleftrightarrow>
   k = Suc 0"
proof (cases k)
  case 0
  then show ?thesis
    by (simp add: Encode_pass_fails_def toy_lame_short_def toy_lame_def bytes_per_frame_def)
next
  case (Suc j)
  show ?thesis
  proof (cases j)
    case 0
    with Suc show ?thesis
      by (simp add: Encode_pass_fails_def toy_short_pass)
         (simp add: toy_lame_short_def toy_lame_def bytes_per_frame_def)
  next
    case (Suc i)
    have "Encode_body toy_lame_short
            (toy_session\<lparr>m_encoder := Some \<lparr>toy_genre = [], toy_calls = 1\<rparr>,
                     m_buffer := fill (replicate 4096 7) zero_buffer,
                     sink := [SinkWrite (replicate 4096 7)]\<rparr>)
            \<lparr>toy_genre = [], toy_calls = 1\<rparr> (replicate 4 7) 4 =
          Inl (toy_session\<lparr>m_encoder := Some \<lparr>toy_genre = [], toy_calls = 2\<rparr>,
                     m_buffer := fill (replicate 4096 7) zero_buffer,
                     sink := [SinkWrite (replicate 4096 7)]\<rparr>)"
      by (simp add: Encode_body_def toy_lame_short_def toy_lame_def bytes_per_frame_def Let_def
          toy_session_def)
    with Suc \<open>k = Suc j\<close> show ?thesis
      by (simp add: Encode_pass_fails_def toy_short_pass)
  qed
qed

lemma toy_short_outputs:
  "Encode_outputs toy_lame_short (Suc 0) \<lparr>toy_genre = [], toy_calls = 0\<rparr>
     (replicate 16388 7) 16388 zero_buffer = [(fill (replicate 4096 7) zero_buffer, 4096)]"
  by (simp add: toy_lame_short_def toy_lame_def bytes_per_frame_def Let_def)

subsection \<open>Start and the constructor\<close>

lemma Start_true_iff:
  "fst (Start api host s tag) \<longleftrightarrow>
     (\<exists>e. m_encoder s = Some e \<and> GetChannels tag = 2 \<and> GetBitsPerSample tag = 16 \<and>
        0 \<le> fst (lame_init_params api
           (fst (Start_id3v2 api host tag (GetSettingInt host ''id3version'' = 2)
                  (Start_genre api tag (Start_fields api tag e), heap s)))))"
  by (cases "m_encoder s")
     (auto simp add: Start_def Start_write_tag_def Let_def split: prod.splits)

lemma CEncoderLame_audio_pos: "m_audio_pos (CEncoderLame api host h buf) = 0"
  by (simp add: CEncoderLame_def Let_def split: option.splits)

lemma Start_tag_trace:
  assumes "fst (Start api host s tag)"
    and "m_encoder s = Some e"
    and "useVer2 = (GetSettingInt host ''id3version'' = 2)"
    and "e1 = snd (lame_init_params api
           (fst (Start_id3v2 api host tag useVer2
                  (Start_genre api tag (Start_fields api tag e), heap s))))"
    and "(if useVer2 then lame_get_id3v2_tag api e1 (m_buffer s) sizeof_m_buffer
          else lame_get_id3v1_tag api e1 (m_buffer s) sizeof_m_buffer) = (tag_length, buf, e2)"
  shows "sink (snd (Start api host s tag)) =
           sink s @ (if tag_length \<noteq> 0 then [sink_write buf (size_t_of_int tag_length)] else []) \<and>
         m_audio_pos (snd (Start api host s tag)) =
           (if tag_length \<noteq> 0 then tag_length else m_audio_pos s)"
proof -
  from assms(1,2) have ok: "GetChannels tag = 2" "GetBitsPerSample tag = 16"
    "0 \<le> fst (lame_init_params api
           (fst (Start_id3v2 api host tag (GetSettingInt host ''id3version'' = 2)
                  (Start_genre api tag (Start_fields api tag e), heap s))))"
    by (auto simp add: Start_true_iff)
  obtain r e' where ip: "lame_init_params api
           (fst (Start_id3v2 api host tag (GetSettingInt host ''id3version'' = 2)
                  (Start_genre api tag (Start_fields api tag e), heap s))) = (r, e')"
    by (cases "lame_init_params api
           (fst (Start_id3v2 api host tag (GetSettingInt host ''id3version'' = 2)
                  (Start_genre api tag (Start_fields api tag e), heap s)))") auto
  with ok(3) have r: "\<not> r < 0" by simp
  from ip assms(3,4) have e1: "e' = e1" by simp
  show ?thesis
  proof (cases useVer2)
    case True
    with assms(2,3,5) ok(1,2) ip r e1 show ?thesis
      by (simp add: Start_def Start_write_tag_def Let_def Write_def)
  next
    case False
    with assms(2,3,5) ok(1,2) ip r e1 show ?thesis
      by (simp add: Start_def Start_write_tag_def Let_def Write_def)
  qed
qed


lemma toy_Start_fields:
  "id3tag_init api = (\<lambda>e. e\<lparr>toy_genre := []\<rparr>) \<Longrightarrow>
   lame_set_in_samplerate api = (\<lambda>e _. e) \<Longrightarrow>
   lame_set_write_id3tag_automatic api = (\<lambda>e _. e) \<Longrightarrow>
   id3tag_set_title api = (\<lambda>e _. e) \<Longrightarrow> id3tag_set_artist api = (\<lambda>e _. e) \<Longrightarrow>
   id3tag_set_album api = (\<lambda>e _. e) \<Longrightarrow> id3tag_set_year api = (\<lambda>e _. e) \<Longrightarrow>
   id3tag_set_track api = (\<lambda>e _. e) \<Longrightarrow>
   Start_fields api tag e = e\<lparr>toy_genre := []\<rparr>"
  by (simp add: Start_fields_def)

lemma toy_ToUtf16_Some: "\<exists>d. ToUtf16 (toy_host v) h (Some str) = (Some d, Suc h)"
  by (simp add: ToUtf16_def toy_host_def Let_def)

lemma toy_set_textinfo:
  "set_textinfo api (toy_host v) fid str (e, h) =
     (id3tag_set_textinfo_utf16 api e fid (fst (ToUtf16 (toy_host v) h (Some (c_str str)))), h)"
proof -
  obtain d where "ToUtf16 (toy_host v) h (Some (c_str str)) = (Some d, Suc h)"
    using toy_ToUtf16_Some by blast
  then show ?thesis
    by (simp add: set_textinfo_def free_value_def) (simp add: toy_host_def)
qed

lemma toy_comment:
  "(case ToUtf16 (toy_host v) h (Some str) of
      (x, h') \<Rightarrow> (f x, free_value (toy_host v) h' x)) =
   (f (fst (ToUtf16 (toy_host v) h (Some str))), h)"
proof -
  obtain d where "ToUtf16 (toy_host v) h (Some str) = (Some d, Suc h)"
    using toy_ToUtf16_Some by blast
  then show ?thesis
    by (simp add: free_value_def) (simp add: toy_host_def)
qed

lemma toy_Start_id3v2_plain:
  assumes "id3tag_set_textinfo_utf16 api = (\<lambda>e _ _. e)"
    and "id3tag_set_comment_utf16 api = (\<lambda>e _. e)"
    and "id3tag_add_v2 api = (\<lambda>e. e)"
  shows "Start_id3v2 api (toy_host v) tag b (e, h) = (e, h)"
  by (simp add: Start_id3v2_def toy_set_textinfo toy_comment assms Let_def)









lemma toy_lame_long_fields:
  "id3tag_init toy_lame_long = (\<lambda>e. e\<lparr>toy_genre := []\<rparr>)"
  "lame_set_in_samplerate toy_lame_long = (\<lambda>e _. e)"
  "lame_set_write_id3tag_automatic toy_lame_long = (\<lambda>e _. e)"
  "id3tag_set_title toy_lame_long = (\<lambda>e _. e)" "id3tag_set_artist toy_lame_long = (\<lambda>e _. e)"
  "id3tag_set_album toy_lame_long = (\<lambda>e _. e)" "id3tag_set_year toy_lame_long = (\<lambda>e _. e)"
  "id3tag_set_track toy_lame_long = (\<lambda>e _. e)"
  "id3tag_set_textinfo_utf16 toy_lame_long = (\<lambda>e _ _. e)"
  "id3tag_set_comment_utf16 toy_lame_long = (\<lambda>e _. e)"
  "id3tag_add_v2 toy_lame_long = (\<lambda>e. e)"
  "lame_init_params toy_lame_long = (\<lambda>e. (0, e))"
  "id3tag_set_genre toy_lame_long =
     (\<lambda>e g. if g = ''Rock'' \<or> g = ''Other'' then (0, e\<lparr>toy_genre := g\<rparr>) else (- 1, e))"
  "lame_get_id3v2_tag toy_lame_long = (\<lambda>e buf size. (70000, buf, e))"
  by (simp_all add: toy_lame_long_def toy_lame_def)

section \<open>The claims\<close>

text \<open>
  Claim C1. For an input whose length leaves 1 to 3 bytes beyond whole 4-byte frames,
  with a live handle and no encode error, \<open>Encode\<close> is claimed to return a count
  that is a multiple of 4, leaves the remainder out and is less than the input
  length. The loop runs \<open>while (bytes_left)\<close>, and a remainder never becomes zero:
  with one frame and one more byte the call does not return.
\<close>

theorem Encode_remainder_never_returns:
  "Encode toy_lame toy_session [1, 2, 3, 4, 5] 5 = None"
proof (rule Encode_remainder_diverges)
  show "m_encoder toy_session = Some \<lparr>toy_genre = [], toy_calls = 0\<rparr>"
    by (simp add: toy_session_def)
  show "\<not> (4::nat) dvd 5" by simp
  show "\<forall>k. \<not> Encode_pass_fails toy_lame
               (toy_session, \<lparr>toy_genre = [], toy_calls = 0\<rparr>, [1, 2, 3, 4, 5], 5) k"
    by (simp add: toy_lame_never_fails)
qed

text \<open>
  Claim C2. For an input of exactly \<open>N\<close> whole frames, with a live handle and a
  non-negative encode result, \<open>Encode\<close> returns \<open>N * 4\<close> after a single pass of
  the loop: the object after the call is the one after one run of the body, which
  hands all \<open>N\<close> frames to the encoder and writes its output once. This holds for
  \<open>1 \<le> N \<le> 4096\<close>.
\<close>

theorem Encode_single_pass:
  assumes "m_encoder s = Some e"
    and "1 \<le> N" and "N \<le> 4096"
    and "lame_encode_buffer_interleaved api e stream N (m_buffer s) sizeof_m_buffer =
           (written, buf, e')"
    and "0 \<le> written"
  shows "Encode api s stream (N * 4) =
           Some (int (N * 4),
                 Write (s\<lparr>m_encoder := Some e', m_buffer := buf\<rparr>) buf (size_t_of_int written))"
proof -
  from assms(3) have f: "min N 4096 = N"
    by simp
  have body: "Encode_body api s e stream (N * 4) =
      Inr (Write (s\<lparr>m_encoder := Some e', m_buffer := buf\<rparr>) buf (size_t_of_int written), e',
           drop (N * bytes_per_frame) stream, 0)"
    using assms(4,5) by (simp add: Encode_body_def f Let_def bytes_per_frame_def)
  from assms(2) have nz: "N * 4 \<noteq> 0" by simp
  have "Encode_loop api s e stream (N * 4) =
      Some (Inr (0, Write (s\<lparr>m_encoder := Some e', m_buffer := buf\<rparr>) buf
                      (size_t_of_int written)))"
    using nz body by (subst Encode_loop.simps) (simp add: Encode_loop_zero)
  with assms(1) show ?thesis by (simp add: Encode_def)
qed

theorem Encode_single_pass_witness:
  "Encode toy_lame toy_session [1, 2, 3, 4, 5, 6, 7, 8] (2 * 4) =
     Some (8, toy_session\<lparr>m_encoder := Some \<lparr>toy_genre = [], toy_calls = 1\<rparr>,
                          m_buffer := fill [1, 2] zero_buffer, sink := [SinkWrite [1, 2]]\<rparr>)"
proof -
  have 1: "m_encoder toy_session = Some \<lparr>toy_genre = [], toy_calls = 0\<rparr>"
    by (simp add: toy_session_def)
  have 4: "lame_encode_buffer_interleaved toy_lame \<lparr>toy_genre = [], toy_calls = 0\<rparr>
             [1, 2, 3, 4, 5, 6, 7, 8] 2 (m_buffer toy_session) sizeof_m_buffer =
           (2, fill [1, 2] zero_buffer, \<lparr>toy_genre = [], toy_calls = 1\<rparr>)"
    by (simp add: toy_lame_def toy_session_def)
  have 5: "sink_write (fill [1, 2] zero_buffer) (size_t_of_int 2) = SinkWrite [1, 2]"
    by (simp add: size_t_of_int_def sink_write_def bytes_of_fill sizeof_m_buffer_def)
  from Encode_single_pass [OF 1 _ _ 4] show ?thesis
    by (simp add: Write_def toy_session_def 5)
qed

text \<open>
  Claim C2 as stated includes \<open>N = 0\<close>. There the loop makes no pass: the call
  returns 0 and leaves the object as it was, the encoder not called and nothing
  written, which is not the object after one pass.
\<close>

theorem Encode_no_frames_no_pass:
  "Encode toy_lame toy_session [] (0 * 4) = Some (0, toy_session) \<and>
   lame_encode_buffer_interleaved toy_lame \<lparr>toy_genre = [], toy_calls = 0\<rparr> [] 0
      (m_buffer toy_session) sizeof_m_buffer =
      (0, fill [] zero_buffer, \<lparr>toy_genre = [], toy_calls = 1\<rparr>) \<and>
   Encode toy_lame toy_session [] (0 * 4) \<noteq>
     Some (int (0 * 4),
           Write (toy_session\<lparr>m_encoder := Some \<lparr>toy_genre = [], toy_calls = 1\<rparr>,
                               m_buffer := fill [] zero_buffer\<rparr>)
             (fill [] zero_buffer) (size_t_of_int 0))"
  by (simp add: Encode_def Encode_loop_zero toy_session_def toy_lame_def Write_def)

text \<open>
  Claim C3. With a live handle, a tag whose channel count is not 2 or whose bits per
  sample are not 16 makes \<open>Start\<close> return false; nothing is written to the sink,
  \<open>m_audio_pos\<close> keeps its value, and indeed the whole object is unchanged.
\<close>

theorem Start_rejects_format:
  assumes "m_encoder s = Some e"
    and "GetChannels tag \<noteq> 2 \<or> GetBitsPerSample tag \<noteq> 16"
  shows "\<not> fst (Start api host s tag) \<and>
         sink (snd (Start api host s tag)) = sink s \<and>
         m_audio_pos (snd (Start api host s tag)) = m_audio_pos s \<and>
         snd (Start api host s tag) = s"
  using assms by (auto simp add: Start_def)

theorem Start_rejects_format_witness:
  "\<not> fst (Start toy_lame (toy_host 1) toy_session ((toy_tag ''Rock'')\<lparr>GetChannels := 1\<rparr>)) \<and>
   sink (snd (Start toy_lame (toy_host 1) toy_session ((toy_tag ''Rock'')\<lparr>GetChannels := 1\<rparr>))) = [] \<and>
   m_audio_pos (snd (Start toy_lame (toy_host 1) toy_session
                       ((toy_tag ''Rock'')\<lparr>GetChannels := 1\<rparr>))) = 0"
proof -
  have 1: "m_encoder toy_session = Some \<lparr>toy_genre = [], toy_calls = 0\<rparr>"
    by (simp add: toy_session_def)
  have 2: "GetChannels ((toy_tag ''Rock'')\<lparr>GetChannels := 1\<rparr>) \<noteq> 2 \<or>
           GetBitsPerSample ((toy_tag ''Rock'')\<lparr>GetChannels := 1\<rparr>) \<noteq> 16"
    by simp
  from Start_rejects_format [OF 1 2, of toy_lame "toy_host 1"] show ?thesis
    by (simp add: toy_session_def)
qed

text \<open>
  Claim C4. In a call of \<open>Start\<close> that succeeds with a tag length that is not zero,
  exactly the bytes of the tag are claimed to reach the sink, with \<open>m_audio_pos\<close>
  their number. \<open>Start\<close> hands the length to \<open>Write\<close> without comparing it with
  \<open>sizeof(m_buffer)\<close> (lemma \<open>Start_tag_trace\<close> gives the write for every length).
  When the version 2 tag does not fit the buffer, the fetch answers the size it needs
  and stores nothing: the write then reads past the end of the array instead of
  handing over the tag, and \<open>m_audio_pos\<close> is a length that no tag in the stream
  has. Here with a tag that needs 70000 bytes.
\<close>

theorem Start_long_tag_overread:
  "Start toy_lame_long (toy_host 2) toy_session (toy_tag ''Rock'') =
     (True, toy_session\<lparr>m_encoder := Some \<lparr>toy_genre = ''Rock'', toy_calls = 0\<rparr>,
                         m_audio_pos := 70000,
                         sink := [SinkOverread 70000]\<rparr>)"
proof -
  let ?e = "\<lparr>toy_genre = [], toy_calls = 0\<rparr>"
  have f: "Start_fields toy_lame_long (toy_tag ''Rock'') ?e = ?e"
    by (simp add: toy_Start_fields toy_lame_long_fields)
  have g: "GetSettingInt (toy_host 2) ''id3version'' = 2"
    by (simp add: toy_host_def)
  have c: "c_str (GetGenre (toy_tag ''Rock'')) = ''Rock''"
    by (simp add: toy_tag_def c_str_def)
  have w: "sink_write zero_buffer (size_t_of_int 70000) = SinkOverread 70000"
    by (simp add: size_t_of_int_def sink_write_def sizeof_m_buffer_def)
  have m: "m_encoder toy_session = Some ?e" and h: "heap toy_session = 0"
    and b: "m_buffer toy_session = zero_buffer" and k: "sink toy_session = []"
    by (simp_all add: toy_session_def)
  have t: "GetChannels (toy_tag ''Rock'') = 2" "GetBitsPerSample (toy_tag ''Rock'') = 16"
    by (simp_all add: toy_tag_def)
  show ?thesis
    by (simp add: Start_def Let_def m t f c g Start_genre_def
        toy_Start_id3v2_plain h Start_write_tag_def toy_lame_long_fields Write_def b k w)
qed

theorem Start_long_tag_overread_witness:
  "fst (Start toy_lame_long (toy_host 2) toy_session (toy_tag ''Rock'')) \<and>
   sink (snd (Start toy_lame_long (toy_host 2) toy_session (toy_tag ''Rock''))) =
     [SinkOverread 70000] \<and>
   m_audio_pos (snd (Start toy_lame_long (toy_host 2) toy_session (toy_tag ''Rock''))) = 70000"
  using Start_long_tag_overread by simp

text \<open>
  Claim C5. In a call of \<open>Finish\<close> that passes the flush, the sink receives the
  flushed bytes, the trailing tag when its length is positive, and then the seek to
  \<open>m_audio_pos\<close> followed by the write of the summary frame exactly when
  \<open>m_audio_pos\<close> is not zero and the length of the summary frame is positive;
  otherwise neither the seek nor that write.
\<close>

theorem Finish_patch_iff:
  assumes "m_encoder s = Some e"
    and "lame_encode_flush api e (m_buffer s) sizeof_m_buffer = (written, buf1, e1)"
    and "0 \<le> written"
    and "lame_get_id3v1_tag api e1 buf1 sizeof_m_buffer = (id3v1tag, buf2, e2)"
    and "lame_get_lametag_frame api e2 buf2 sizeof_m_buffer = (lameTag, buf3, e3)"
  shows "sink (snd (Finish api s)) =
           sink s @ [sink_write buf1 (size_t_of_int written)] @
           (if id3v1tag > 0 then [sink_write buf2 (size_t_of_int id3v1tag)] else []) @
           (if m_audio_pos s \<noteq> 0 \<and> lameTag > 0
            then [SinkSeek (m_audio_pos s) SEEK_SET, sink_write buf3 (size_t_of_int lameTag)]
            else [])"
  using assms by (simp add: Finish_def Let_def Write_def Seek_def)

theorem Finish_patch_iff_witness:
  "sink (snd (Finish toy_lame (toy_session\<lparr>m_audio_pos := 3\<rparr>))) =
     [SinkWrite [], SinkWrite [0x54, 0x41, 0x47],
      SinkSeek 3 0, SinkWrite [0xFF, 0xFB, 0x90, 0x64]] \<and>
   sink (snd (Finish toy_lame toy_session)) =
     [SinkWrite [], SinkWrite [0x54, 0x41, 0x47]]"
proof -
  let ?e = "\<lparr>toy_genre = [], toy_calls = 0\<rparr>"
  let ?b2 = "fill [0x54, 0x41, 0x47] zero_buffer"
  let ?b3 = "fill [0xFF, 0xFB, 0x90, 0x64] ?b2"
  have a: "lame_encode_flush toy_lame ?e zero_buffer sizeof_m_buffer = (0, zero_buffer, ?e)"
    by (simp add: toy_lame_def)
  have b: "lame_get_id3v1_tag toy_lame ?e zero_buffer sizeof_m_buffer = (3, ?b2, ?e)"
    by (simp add: toy_lame_def toy_tag_bytes_def)
  have c: "lame_get_lametag_frame toy_lame ?e ?b2 sizeof_m_buffer = (4, ?b3, ?e)"
    by (simp add: toy_lame_def)
  have 1: "m_encoder (toy_session\<lparr>m_audio_pos := 3\<rparr>) = Some ?e"
    and 2: "m_encoder toy_session = Some ?e"
    and 3: "m_buffer (toy_session\<lparr>m_audio_pos := 3\<rparr>) = zero_buffer"
    and 4: "m_buffer toy_session = zero_buffer"
    by (simp_all add: toy_session_def)
  have w: "sink_write zero_buffer (size_t_of_int 0) = SinkWrite []"
    "sink_write ?b2 (size_t_of_int 3) = SinkWrite [0x54, 0x41, 0x47]"
    "sink_write ?b3 (size_t_of_int 4) = SinkWrite [0xFF, 0xFB, 0x90, 0x64]"
    by (simp_all add: size_t_of_int_def sink_write_def bytes_of_fill sizeof_m_buffer_def)
  from Finish_patch_iff [of "toy_session\<lparr>m_audio_pos := 3\<rparr>" ?e toy_lame 0 zero_buffer ?e 3
      ?b2 ?e 4 ?b3 ?e]
    Finish_patch_iff [of toy_session ?e toy_lame 0 zero_buffer ?e 3 ?b2 ?e 4 ?b3 ?e]
    a b c 1 2 3 4
  show ?thesis by (simp add: toy_session_def SEEK_SET_def w)
qed

text \<open>
  Claim C6. \<open>Finish\<close> returns true exactly when the handle is not null and the
  flush result is not negative. When it returns false, nothing has reached the sink:
  with a null handle the object is unchanged, and after a failed flush only the
  context and the buffer that the flush touched have changed, so the trailing tag and
  the summary patch were skipped.
\<close>

theorem Finish_success_iff:
  "(fst (Finish api s) \<longleftrightarrow>
      (\<exists>e. m_encoder s = Some e \<and>
           0 \<le> fst (lame_encode_flush api e (m_buffer s) sizeof_m_buffer))) \<and>
   (\<not> fst (Finish api s) \<longrightarrow>
      sink (snd (Finish api s)) = sink s \<and>
      m_audio_pos (snd (Finish api s)) = m_audio_pos s \<and>
      (case m_encoder s of
         None \<Rightarrow> snd (Finish api s) = s
       | Some e \<Rightarrow>
           (case lame_encode_flush api e (m_buffer s) sizeof_m_buffer of
              (written, buf, e') \<Rightarrow>
                snd (Finish api s) = s\<lparr>m_encoder := Some e', m_buffer := buf\<rparr>)))"
  by (cases "m_encoder s")
     (auto simp add: Finish_def Let_def Write_def Seek_def split: prod.splits)

theorem Finish_success_iff_witness:
  "\<not> fst (Finish toy_lame_noflush toy_session) \<and>
   sink (snd (Finish toy_lame_noflush toy_session)) = sink toy_session \<and>
   fst (Finish toy_lame toy_session)"
proof -
  have 1: "\<not> (\<exists>e. m_encoder toy_session = Some e \<and>
           0 \<le> fst (lame_encode_flush toy_lame_noflush e (m_buffer toy_session) sizeof_m_buffer))"
    by (simp add: toy_session_def toy_lame_noflush_def toy_lame_def)
  have 2: "\<exists>e. m_encoder toy_session = Some e \<and>
           0 \<le> fst (lame_encode_flush toy_lame e (m_buffer toy_session) sizeof_m_buffer)"
    by (simp add: toy_session_def toy_lame_def)
  from 1 2 Finish_success_iff [of toy_lame_noflush toy_session]
    Finish_success_iff [of toy_lame toy_session]
  show ?thesis by blast
qed

text \<open>
  Claim C7. \<open>Encode\<close> returns a negative value exactly when the handle is null or
  some pass of the loop gets a negative result from the encoder. The value is then
  \<open>- 1\<close>. With a null handle the object is unchanged. Otherwise, with the failure
  in pass \<open>k + 1\<close>, the sink has gained one write for each of the \<open>k\<close> passes
  before it, in their order, each of the buffer as the encoder left it in that pass
  with the length the encoder returned, and nothing for the failing pass.
\<close>

theorem Encode_negative_iff:
  "((\<exists>r s'. Encode api s stream n = Some (r, s') \<and> r < 0) \<longleftrightarrow>
      (m_encoder s = None \<or>
       (\<exists>e k. m_encoder s = Some e \<and> Encode_pass_fails api (s, e, stream, n) k))) \<and>
   (\<forall>r s'. Encode api s stream n = Some (r, s') \<and> r < 0 \<longrightarrow>
      r = - 1 \<and>
      (case m_encoder s of
         None \<Rightarrow> s' = s
       | Some e \<Rightarrow>
           (\<exists>k. Encode_pass_fails api (s, e, stream, n) k \<and>
                sink s' =
                  sink s @ map (\<lambda>(buf, written). sink_write buf (size_t_of_int written))
                             (Encode_outputs api k e stream n (m_buffer s)))))"
proof (intro conjI iffI allI impI)
  assume "\<exists>r s'. Encode api s stream n = Some (r, s') \<and> r < 0"
  then obtain r s' where r: "Encode api s stream n = Some (r, s')" "r < 0" by blast
  show "m_encoder s = None \<or>
       (\<exists>e k. m_encoder s = Some e \<and> Encode_pass_fails api (s, e, stream, n) k)"
  proof (cases "m_encoder s")
    case None
    then show ?thesis by simp
  next
    case (Some e)
    from Encode_negative_fails [OF Some r] Some show ?thesis by blast
  qed
next
  assume c: "m_encoder s = None \<or>
       (\<exists>e k. m_encoder s = Some e \<and> Encode_pass_fails api (s, e, stream, n) k)"
  show "\<exists>r s'. Encode api s stream n = Some (r, s') \<and> r < 0"
  proof (cases "m_encoder s")
    case None
    then have "Encode api s stream n = Some (- 1, s)" by (simp add: Encode_def)
    then show ?thesis by simp
  next
    case (Some e)
    with c obtain k where "Encode_pass_fails api (s, e, stream, n) k" by auto
    from Encode_fails_returns [OF Some this] show ?thesis by auto
  qed
next
  fix r s'
  assume a: "Encode api s stream n = Some (r, s') \<and> r < 0"
  show "r = - 1"
  proof (cases "m_encoder s")
    case None
    with a show ?thesis by (simp add: Encode_def)
  next
    case (Some e)
    from a Encode_negative_fails [OF Some] show ?thesis by blast
  qed
  show "case m_encoder s of
         None \<Rightarrow> s' = s
       | Some e \<Rightarrow>
           (\<exists>k. Encode_pass_fails api (s, e, stream, n) k \<and>
                sink s' =
                  sink s @ map (\<lambda>(buf, written). sink_write buf (size_t_of_int written))
                             (Encode_outputs api k e stream n (m_buffer s)))"
  proof (cases "m_encoder s")
    case None
    with a show ?thesis by (simp add: Encode_def)
  next
    case (Some e)
    from a Encode_negative_fails [OF Some] Some show ?thesis by simp
  qed
qed

theorem Encode_negative_iff_witness:
  "\<exists>s'. Encode toy_lame_short toy_session (replicate 16388 7) 16388 = Some (- 1, s') \<and>
        sink s' = [SinkWrite (replicate 4096 7)]"
proof -
  let ?e = "\<lparr>toy_genre = [], toy_calls = 0\<rparr>"
  have m: "m_encoder toy_session = Some ?e" and b: "m_buffer toy_session = zero_buffer"
    and k: "sink toy_session = []"
    by (simp_all add: toy_session_def)
  from m toy_short_fails_iff have
    "m_encoder toy_session = None \<or>
       (\<exists>e k. m_encoder toy_session = Some e \<and>
          Encode_pass_fails toy_lame_short (toy_session, e, replicate 16388 7, 16388) k)"
    by blast
  with Encode_negative_iff [of toy_lame_short toy_session "replicate 16388 7" 16388]
  obtain r s' where r: "Encode toy_lame_short toy_session (replicate 16388 7) 16388 = Some (r, s')"
    "r < 0" by blast
  with Encode_negative_iff [of toy_lame_short toy_session "replicate 16388 7" 16388] m
  obtain k where "r = - 1"
    "Encode_pass_fails toy_lame_short (toy_session, ?e, replicate 16388 7, 16388) k"
    "sink s' = sink toy_session @
       map (\<lambda>(buf, written). sink_write buf (size_t_of_int written))
         (Encode_outputs toy_lame_short k ?e (replicate 16388 7) 16388 (m_buffer toy_session))"
    by auto
  with toy_short_fails_iff b k have "r = - 1"
    "sink s' = [sink_write (fill (replicate 4096 7) zero_buffer) (size_t_of_int 4096)]"
    by (simp_all add: toy_short_outputs del: Encode_outputs.simps)
  moreover have "sink_write (fill (replicate 4096 7) zero_buffer) (size_t_of_int 4096) =
      SinkWrite (replicate 4096 7)"
    by (simp add: size_t_of_int_def sink_write_def bytes_of_fill sizeof_m_buffer_def)
  ultimately show ?thesis using r by simp
qed

text \<open>
  Claim C8. \<open>ToUtf16\<close> on a null pointer returns null and leaves the heap alone
  (\<open>calloc\<close> is not called). On the empty string, when \<open>calloc\<close> succeeds, it
  returns the 16 units of the block: the mark \<open>0xFEFF\<close> first, then zeros, so the
  unit after the mark is the terminator.
\<close>

theorem ToUtf16_null_and_empty:
  "ToUtf16 host h None = (None, h) \<and>
   (\<forall>h'. calloc host h 8 4 = (True, h') \<longrightarrow>
      ToUtf16 host h (Some []) = (Some (0xFEFF # replicate 15 0), h'))"
proof -
  have r: "replicate 16 (0::uint16_t) = 0 # replicate 15 0"
    by (simp add: numeral_eq_Suc)
  show ?thesis
    by (simp add: ToUtf16_def strlen_def Let_def store_units_def r)
qed

theorem ToUtf16_null_and_empty_witness:
  "ToUtf16 (toy_host 2) 0 None = (None, 0) \<and>
   ToUtf16 (toy_host 2) 0 (Some []) = (Some (0xFEFF # replicate 15 0), 1)"
proof -
  have "calloc (toy_host 2) 0 8 4 = (True, 1)"
    by (simp add: toy_host_def)
  with ToUtf16_null_and_empty [of "toy_host 2" 0] show ?thesis by blast
qed




text \<open>
  Claim C10. For an input whose length is a multiple of 4 (zero included), with a live
  handle and no negative result from any encode step, the loop of \<open>Encode\<close> ends
  and the call returns the full input length.
\<close>

theorem Encode_whole_frames_returns:
  assumes "m_encoder s = Some e"
    and "4 dvd numBytesRead"
    and "\<forall>k. \<not> Encode_pass_fails api (s, e, stream, numBytesRead) k"
  shows "\<exists>s'. Encode api s stream numBytesRead = Some (int numBytesRead, s')"
proof -
  from Encode_loop_returns [OF assms(2,3)] obtain s' where
    "Encode_loop api s e stream numBytesRead = Some (Inr (0, s'))" by blast
  with assms(1) show ?thesis by (simp add: Encode_def)
qed

theorem Encode_whole_frames_returns_witness:
  "\<exists>s'. Encode toy_lame toy_session (replicate 8 0) 8 = Some (8, s')"
proof -
  have 1: "m_encoder toy_session = Some \<lparr>toy_genre = [], toy_calls = 0\<rparr>"
    by (simp add: toy_session_def)
  have 2: "(4::nat) dvd 8" by simp
  have 3: "\<forall>k. \<not> Encode_pass_fails toy_lame
               (toy_session, \<lparr>toy_genre = [], toy_calls = 0\<rparr>, replicate 8 0, 8) k"
    by (simp add: toy_lame_never_fails)
  from Encode_whole_frames_returns [OF 1 2 3] show ?thesis by simp
qed

end
